theory Spec2Isabelle
  imports Main "HOL-Library.AList"
begin

section \<open>Data model (src/src/App.tsx, lines 4-11)\<close>

text \<open>
  A JavaScript string is modelled as a \<open>string\<close>: a list with one element per UTF-16 code
  unit, so that \<open>length\<close> is the \<open>.length\<close> the source compares with its limits. The
  fields \<open>from\<close> and \<open>text\<close> of an episode are called \<open>ep_from\<close> and \<open>ep_text\<close>, both
  names being reserved words here.
\<close>

record Episode =
  ep_from :: string
  ep_text :: string

record SheetData =
  visions :: "string list"
  engineSlogan :: string
  engines :: "string list"
  episodes :: "Episode list"

text \<open>\<open>keyof Episode\<close>: the second argument of \<open>handleEpisodeChange\<close>.\<close>

datatype episode_key = From | Text

definition STORAGE_KEY :: string where
  "STORAGE_KEY = ''pcs-sheet-data''"

text \<open>\<open>Array.from({ length: 6 }, () => ({ from: "", text: "" }))\<close>\<close>

definition emptyEpisodes :: "Episode list" where
  "emptyEpisodes = replicate 6 \<lparr>ep_from = [], ep_text = []\<rparr>"

text \<open>The object literal that \<open>useState\<close> falls back to when nothing was loaded.\<close>

definition defaultData :: SheetData where
  "defaultData =
     \<lparr>visions = [[], [], []], engineSlogan = [], engines = [[], [], []],
      episodes = emptyEpisodes\<rparr>"

section \<open>Length check, font size and the print handler (lines 101-169)\<close>

definition validateTextLength :: "string \<Rightarrow> nat \<Rightarrow> bool" where
  "validateTextLength txt maxLength = (length txt \<le> maxLength)"

definition getEpisodeFontSize :: "nat \<Rightarrow> string" where
  "getEpisodeFontSize textLength =
     (if textLength \<le> 40 then ''9.6px''
      else if textLength \<le> 80 then ''7.5px''
      else ''7.5px'')"

text \<open>
  The five texts that \<open>handlePrint\<close> passes to \<open>alert\<close>, in the order of the source. Each
  starts with the same headline (over the character limit) and then names one field group
  and its limit: My Vision, 30 each; the slogan of My Engine, 30; the driving forces of My
  Engine, 30 each; the episodes of My Episode, 80 each; the from of My Episode, 8. They are
  named after the violation kinds of the specification.
\<close>

datatype violation =
  VisionTooLong | SloganTooLong | EngineTooLong | EpisodeTextTooLong | EpisodeFromTooLong

text \<open>Exceptions that the platform calls of the source can raise.\<close>

datatype exn = SecurityError | QuotaExceededError | SyntaxError | TypeError

text \<open>The calls that leave the component, in the order they are made.\<close>

datatype effect =
  Alert violation
  | WindowPrint
  | SetItem string string
  | ConsoleError exn

text \<open>
  \<open>handlePrint\<close> reads the current \<open>data\<close> and returns nothing; what it does is the list
  of calls it makes. Every path makes exactly one: an \<open>alert\<close> followed by \<open>return\<close>, or
  \<open>window.print()\<close> at the end.
\<close>

definition handlePrint :: "SheetData \<Rightarrow> effect list" where
  "handlePrint d =
     (let visionErrors = filter (\<lambda>v. \<not> validateTextLength v 30) (visions d) in
      if length visionErrors > 0 then [Alert VisionTooLong]
      else if \<not> validateTextLength (engineSlogan d) 30 then [Alert SloganTooLong]
      else
        let engineErrors = filter (\<lambda>e. \<not> validateTextLength e 30) (engines d) in
        if length engineErrors > 0 then [Alert EngineTooLong]
        else
          let episodeTextErrors =
                filter (\<lambda>ep. \<not> validateTextLength (ep_text ep) 80) (episodes d) in
          if length episodeTextErrors > 0 then [Alert EpisodeTextTooLong]
          else
            let episodeFromErrors =
                  filter (\<lambda>ep. \<not> validateTextLength (ep_from ep) 8) (episodes d) in
            if length episodeFromErrors > 0 then [Alert EpisodeFromTooLong]
            else [WindowPrint])"

section \<open>The rules of the specification, for comparison\<close>

text \<open>
  Section 4.2 of the specification: when a rule is violated, and the precedence of the
  rules (1 is reported first).
\<close>

fun violated :: "SheetData \<Rightarrow> violation \<Rightarrow> bool" where
  "violated d VisionTooLong = (\<exists>v \<in> set (visions d). 30 < length v)"
| "violated d SloganTooLong = (30 < length (engineSlogan d))"
| "violated d EngineTooLong = (\<exists>e \<in> set (engines d). 30 < length e)"
| "violated d EpisodeTextTooLong = (\<exists>ep \<in> set (episodes d). 80 < length (ep_text ep))"
| "violated d EpisodeFromTooLong = (\<exists>ep \<in> set (episodes d). 8 < length (ep_from ep))"

fun precedence :: "violation \<Rightarrow> nat" where
  "precedence VisionTooLong = 1"
| "precedence SloganTooLong = 2"
| "precedence EngineTooLong = 3"
| "precedence EpisodeTextTooLong = 4"
| "precedence EpisodeFromTooLong = 5"

definition within_limits :: "SheetData \<Rightarrow> bool" where
  "within_limits d =
     ((\<forall>v \<in> set (visions d). length v \<le> 30) \<and>
      length (engineSlogan d) \<le> 30 \<and>
      (\<forall>e \<in> set (engines d). length e \<le> 30) \<and>
      (\<forall>ep \<in> set (episodes d). length (ep_text ep) \<le> 80) \<and>
      (\<forall>ep \<in> set (episodes d). length (ep_from ep) \<le> 8))"

text \<open>
  Section 3 of the specification: the fixed lengths of the three sequences. A call of
  \<open>localStorage.setItem\<close> is a persistence call.
\<close>

definition fixed_shape :: "SheetData \<Rightarrow> bool" where
  "fixed_shape d = (length (visions d) = 3 \<and> length (engines d) = 3 \<and> length (episodes d) = 6)"

fun is_SetItem :: "effect \<Rightarrow> bool" where
  "is_SetItem (SetItem k v) = True"
| "is_SetItem _ = False"

section \<open>Values at run time\<close>

text \<open>
  The types of the source are erased at run time: what \<open>JSON.parse\<close> returns, and what
  \<open>loadDataFromStorage\<close> hands on as a \<open>SheetData\<close>, is any JSON value. An object is the
  list of its properties in insertion order, which is the order \<open>JSON.stringify\<close> writes
  them in; the keys of an object built by \<open>JSON.parse\<close> are distinct. Numbers are
  integers here: no function of the source reads the value of a number.
\<close>

datatype json =
  JNull
  | JBool bool
  | JNum int
  | JStr string
  | JArr "json list"
  | JObj "(string \<times> json) list"

text \<open>The object that a well-typed record is at run time, keys in the order of the source.\<close>

definition episode_json :: "Episode \<Rightarrow> json" where
  "episode_json ep = JObj [(''from'', JStr (ep_from ep)), (''text'', JStr (ep_text ep))]"

definition sheet_json :: "SheetData \<Rightarrow> json" where
  "sheet_json d =
     JObj [(''visions'', JArr (map JStr (visions d))),
           (''engineSlogan'', JStr (engineSlogan d)),
           (''engines'', JArr (map JStr (engines d))),
           (''episodes'', JArr (map episode_json (episodes d)))]"

text \<open>The typed reading of a run-time value: \<open>None\<close> when it is not a \<open>SheetData\<close>.\<close>

fun string_of_json :: "json \<Rightarrow> string option" where
  "string_of_json (JStr s) = Some s"
| "string_of_json _ = None"

fun strings_of_json :: "json \<Rightarrow> string list option" where
  "strings_of_json (JArr xs) = those (map string_of_json xs)"
| "strings_of_json _ = None"

fun episode_of_json :: "json \<Rightarrow> Episode option" where
  "episode_of_json (JObj kvs) =
     (case (map_of kvs ''from'', map_of kvs ''text'') of
        (Some (JStr f), Some (JStr t)) \<Rightarrow> Some \<lparr>ep_from = f, ep_text = t\<rparr>
      | _ \<Rightarrow> None)"
| "episode_of_json _ = None"

fun episodes_of_json :: "json \<Rightarrow> Episode list option" where
  "episodes_of_json (JArr xs) = those (map episode_of_json xs)"
| "episodes_of_json _ = None"

fun sheet_of_json :: "json \<Rightarrow> SheetData option" where
  "sheet_of_json (JObj kvs) =
     (case (map_of kvs ''visions'', map_of kvs ''engineSlogan'', map_of kvs ''engines'',
            map_of kvs ''episodes'') of
        (Some vs, Some (JStr s), Some es, Some eps) \<Rightarrow>
          (case (strings_of_json vs, strings_of_json es, episodes_of_json eps) of
             (Some vs', Some es', Some eps') \<Rightarrow>
               Some \<lparr>visions = vs', engineSlogan = s, engines = es', episodes = eps'\<rparr>
           | _ \<Rightarrow> None)
      | _ \<Rightarrow> None)"
| "sheet_of_json _ = None"

text \<open>JavaScript's truthiness, as the \<open>parsed &&\<close> of the shape check tests it.\<close>

fun truthy :: "json \<Rightarrow> bool" where
  "truthy JNull = False"
| "truthy (JBool b) = b"
| "truthy (JNum n) = (n \<noteq> 0)"
| "truthy (JStr s) = (s \<noteq> [])"
| "truthy (JArr xs) = True"
| "truthy (JObj kvs) = True"

text \<open>
  \<open>parsed.k\<close> for the four keys the loader reads: \<open>None\<close> is \<open>undefined\<close>. Reading a
  property of \<open>null\<close> raises a TypeError; numbers, booleans, strings and arrays have no
  property of these names.
\<close>

fun property :: "json \<Rightarrow> string \<Rightarrow> exn + json option" where
  "property JNull k = Inl TypeError"
| "property (JObj kvs) k = Inr (map_of kvs k)"
| "property _ k = Inr None"

text \<open>\<open>Array.isArray(x)\<close> and \<open>typeof x === "string"\<close>, where \<open>x\<close> may be \<open>undefined\<close>.\<close>

fun isArray :: "json option \<Rightarrow> bool" where
  "isArray (Some (JArr xs)) = True"
| "isArray _ = False"

fun typeof_string :: "json option \<Rightarrow> bool" where
  "typeof_string (Some (JStr s)) = True"
| "typeof_string _ = False"

text \<open>
  The condition of lines 35-41. \<open>&&\<close> evaluates its right operand only when the left one
  is truthy, so the operands are nested in the order of the source.
\<close>

definition shape_check :: "json \<Rightarrow> exn + bool" where
  "shape_check parsed =
     (if \<not> truthy parsed then Inr False
      else
        (case property parsed ''visions'' of
           Inl e \<Rightarrow> Inl e
         | Inr v \<Rightarrow>
             if \<not> isArray v then Inr False
             else
               (case property parsed ''engineSlogan'' of
                  Inl e \<Rightarrow> Inl e
                | Inr s \<Rightarrow>
                    if \<not> typeof_string s then Inr False
                    else
                      (case property parsed ''engines'' of
                         Inl e \<Rightarrow> Inl e
                       | Inr g \<Rightarrow>
                           if \<not> isArray g then Inr False
                           else
                             (case property parsed ''episodes'' of
                                Inl e \<Rightarrow> Inl e
                              | Inr p \<Rightarrow> Inr (isArray p))))))"

text \<open>
  The shape check in the words of the specification (section 4.1): the value contains
  \<open>visions\<close> as a sequence, \<open>engineSlogan\<close> as a string, \<open>engines\<close> as a sequence and
  \<open>episodes\<close> as a sequence.
\<close>

definition has_shape :: "json \<Rightarrow> bool" where
  "has_shape p =
     (\<exists>kvs vs s es eps. p = JObj kvs \<and> map_of kvs ''visions'' = Some (JArr vs) \<and>
        map_of kvs ''engineSlogan'' = Some (JStr s) \<and> map_of kvs ''engines'' = Some (JArr es) \<and>
        map_of kvs ''episodes'' = Some (JArr eps))"

section \<open>The storage backend\<close>

text \<open>
  \<open>localStorage\<close> is outside the repository. Its model holds the stored items (keys
  and values in the order they were first set), a quota (a \<open>setItem\<close> after which the
  stored items would exceed it raises QuotaExceededError) and whether access is denied
  (every call then raises SecurityError); these are the failures that the \<open>try\<close> blocks of
  the source catch.
\<close>

record web_storage =
  items :: "(string \<times> string) list"
  quota :: nat
  denied :: bool

definition getItem :: "string \<Rightarrow> web_storage \<Rightarrow> exn + string option" where
  "getItem k st = (if denied st then Inl SecurityError else Inr (map_of (items st) k))"

text \<open>What the stored items take of the quota: the lengths of all keys and values.\<close>

definition used :: "(string \<times> string) list \<Rightarrow> nat" where
  "used al = sum_list (map (\<lambda>(k, v). length k + length v) al)"

definition setItem :: "string \<Rightarrow> string \<Rightarrow> web_storage \<Rightarrow> exn + web_storage" where
  "setItem k v st =
     (if denied st then Inl SecurityError
      else if quota st < used (AList.update k v (items st)) then Inl QuotaExceededError
      else Inr (st\<lparr>items := AList.update k v (items st)\<rparr>))"

section \<open>Loading and saving (lines 28-70)\<close>

text \<open>
  \<open>JSON.parse\<close> and \<open>JSON.stringify\<close> belong to the platform and are parameters:
  \<open>parse s = None\<close> when \<open>JSON.parse(s)\<close> raises a SyntaxError.

  \<open>load_try\<close> is the body of the \<open>try\<close> block: \<open>Inl e\<close> when an exception reaches the
  \<open>catch\<close> clause, \<open>Inr (Some parsed)\<close> at \<open>return parsed\<close>, \<open>Inr None\<close> when control
  leaves the block at its end. \<open>if (stored)\<close> is false for \<open>null\<close> and for the empty
  string.
\<close>

definition load_try :: "(string \<Rightarrow> json option) \<Rightarrow> web_storage \<Rightarrow> exn + json option" where
  "load_try parse st =
     (case getItem STORAGE_KEY st of
        Inl e \<Rightarrow> Inl e
      | Inr None \<Rightarrow> Inr None
      | Inr (Some stored) \<Rightarrow>
          if stored = [] then Inr None
          else
            (case parse stored of
               None \<Rightarrow> Inl SyntaxError
             | Some parsed \<Rightarrow>
                 (case shape_check parsed of
                    Inl e \<Rightarrow> Inl e
                  | Inr ok \<Rightarrow> if ok then Inr (Some parsed) else Inr None)))"

text \<open>
  The function returns the loaded value or \<open>null\<close> (\<open>None\<close>), together with what it wrote
  to the console: the \<open>catch\<close> clause logs the exception and falls through to
  \<open>return null\<close>.
\<close>

definition loadDataFromStorage ::
  "(string \<Rightarrow> json option) \<Rightarrow> web_storage \<Rightarrow> json option \<times> effect list" where
  "loadDataFromStorage parse st =
     (case load_try parse st of
        Inl e \<Rightarrow> (None, [ConsoleError e])
      | Inr r \<Rightarrow> (r, []))"

text \<open>The initialiser of \<open>useState\<close> (lines 51-61): \<open>loaded || { ... }\<close>.\<close>

definition initialData :: "(string \<Rightarrow> json option) \<Rightarrow> web_storage \<Rightarrow> json" where
  "initialData parse st =
     (case fst (loadDataFromStorage parse st) of
        Some loaded \<Rightarrow> if truthy loaded then loaded else sheet_json defaultData
      | None \<Rightarrow> sheet_json defaultData)"

text \<open>
  The body of the effect of lines 64-70, the \<open>save\<close> of the specification: the storage
  afterwards and the calls made.
\<close>

definition save :: "(json \<Rightarrow> string) \<Rightarrow> SheetData \<Rightarrow> web_storage \<Rightarrow> web_storage \<times> effect list" where
  "save stringify d st =
     (let blob = stringify (sheet_json d) in
      case setItem STORAGE_KEY blob st of
        Inl e \<Rightarrow> (st, [SetItem STORAGE_KEY blob, ConsoleError e])
      | Inr st' \<Rightarrow> (st', [SetItem STORAGE_KEY blob]))"

section \<open>The component's state and its handlers (lines 51-99)\<close>

record world =
  data :: SheetData
  localStorage :: web_storage
  log :: "effect list"

text \<open>
  What an updater passed to \<open>setData\<close> returns: the object it was given, or an object it
  has just built. React compares the two states with \<open>Object.is\<close>; for the same object it
  renders nothing anew and runs no effect, for a new object it renders again and, the
  dependency \<open>[data]\<close> having changed, runs the effect that saves.
\<close>

datatype 'a returned = SameObject | NewObject 'a

definition useEffect_save :: "(json \<Rightarrow> string) \<Rightarrow> world \<Rightarrow> world" where
  "useEffect_save stringify w =
     (let (st', calls) = save stringify (data w) (localStorage w) in
      w\<lparr>localStorage := st', log := log w @ calls\<rparr>)"

text \<open>An updater yields \<open>None\<close> where its result is no \<open>SheetData\<close> (see \<open>array_assign\<close>).\<close>

definition setData ::
  "(json \<Rightarrow> string) \<Rightarrow> (SheetData \<Rightarrow> SheetData returned option) \<Rightarrow> world \<Rightarrow> world option" where
  "setData stringify updater w =
     (case updater (data w) of
        None \<Rightarrow> None
      | Some SameObject \<Rightarrow> Some w
      | Some (NewObject d) \<Rightarrow> Some (useEffect_save stringify (w\<lparr>data := d\<rparr>)))"

text \<open>
  \<open>const a = [...xs]; a[index] = value\<close>, for an index that is a natural number. Inside
  the array the element is replaced, at its end the array grows by one, and beyond the end
  JavaScript leaves holes, which is no array of strings any more: \<open>None\<close>.
\<close>

definition array_assign :: "'a list \<Rightarrow> nat \<Rightarrow> 'a \<Rightarrow> 'a list option" where
  "array_assign xs index v =
     (if index < length xs then Some (xs[index := v])
      else if index = length xs then Some (xs @ [v])
      else None)"

definition handleVisionChange ::
  "(json \<Rightarrow> string) \<Rightarrow> nat \<Rightarrow> string \<Rightarrow> world \<Rightarrow> world option" where
  "handleVisionChange stringify index v =
     setData stringify (\<lambda>prev.
       case array_assign (visions prev) index v of
         None \<Rightarrow> None
       | Some visions' \<Rightarrow> Some (NewObject (prev\<lparr>visions := visions'\<rparr>)))"

definition handleEngineChange ::
  "(json \<Rightarrow> string) \<Rightarrow> nat \<Rightarrow> string \<Rightarrow> world \<Rightarrow> world option" where
  "handleEngineChange stringify index v =
     setData stringify (\<lambda>prev.
       case array_assign (engines prev) index v of
         None \<Rightarrow> None
       | Some engines' \<Rightarrow> Some (NewObject (prev\<lparr>engines := engines'\<rparr>)))"

text \<open>\<open>{ ...ep, [field]: value }\<close>\<close>

fun assign_key :: "episode_key \<Rightarrow> string \<Rightarrow> Episode \<Rightarrow> Episode" where
  "assign_key From v ep = ep\<lparr>ep_from := v\<rparr>"
| "assign_key Text v ep = ep\<lparr>ep_text := v\<rparr>"

definition handleEpisodeChange ::
  "(json \<Rightarrow> string) \<Rightarrow> nat \<Rightarrow> episode_key \<Rightarrow> string \<Rightarrow> world \<Rightarrow> world option" where
  "handleEpisodeChange stringify index field v =
     setData stringify (\<lambda>prev.
       Some (NewObject (prev\<lparr>episodes :=
         map (\<lambda>(i, ep). if i = index then assign_key field v ep else ep)
           (enumerate 0 (episodes prev))\<rparr>)))"

text \<open>
  The \<open>onChange\<close> of the slogan input (an arrow function in the markup, the
  \<open>setEngineSlogan\<close> of the specification).
\<close>

definition sloganOnChange :: "(json \<Rightarrow> string) \<Rightarrow> string \<Rightarrow> world \<Rightarrow> world option" where
  "sloganOnChange stringify v =
     setData stringify (\<lambda>prev. Some (NewObject (prev\<lparr>engineSlogan := v\<rparr>)))"

text \<open>A click on the print button: \<open>handlePrint\<close> on the current \<open>data\<close>.\<close>

definition clickPrint :: "world \<Rightarrow> world" where
  "clickPrint w = w\<lparr>log := log w @ handlePrint (data w)\<rparr>"

section \<open>A reference instance of the platform's JSON functions\<close>

text \<open>
  The loader and the saving effect take \<open>JSON.parse\<close> and \<open>JSON.stringify\<close> as
  parameters. \<open>ref_stringify\<close> and \<open>ref_parse\<close> model the two: they write and read
  JSON texts the way the platform does on the values a record serialises to, which are
  objects, arrays and strings with all their escapes. Numbers are integers.
  \<open>CHR 0x22\<close> is the quotation mark, \<open>CHR 0x5C\<close> the backslash. The reader recurses
  on a bound that \<open>ref_parse\<close> takes from the length of the text.
\<close>

text \<open>
  \<open>QuoteJSONString\<close>: the quotation mark, the backslash and the control characters are
  written as escapes, the five control characters with a letter as \<open>\b \t \n \f \r\<close>,
  the others as \<open>\u00\<close> and two lower-case hexadecimal digits.
\<close>

definition hex_digit :: "nat \<Rightarrow> char" where
  "hex_digit n = (if n < 10 then char_of (48 + n) else char_of (87 + n))"

definition escape :: "char \<Rightarrow> string" where
  "escape c =
     (if c = CHR 0x22 then [CHR 0x5C, CHR 0x22]
      else if c = CHR 0x5C then [CHR 0x5C, CHR 0x5C]
      else if c = CHR 0x08 then [CHR 0x5C, CHR ''b'']
      else if c = CHR 0x09 then [CHR 0x5C, CHR ''t'']
      else if c = CHR 0x0A then [CHR 0x5C, CHR ''n'']
      else if c = CHR 0x0C then [CHR 0x5C, CHR ''f'']
      else if c = CHR 0x0D then [CHR 0x5C, CHR ''r'']
      else if (of_char c :: nat) < 32 then
        [CHR 0x5C, CHR ''u'', CHR ''0'', CHR ''0'',
         hex_digit (of_char c div 16), hex_digit (of_char c mod 16)]
      else [c])"

definition quote :: "string \<Rightarrow> string" where
  "quote s = CHR 0x22 # concat (map escape s) @ [CHR 0x22]"

fun show_nat :: "nat \<Rightarrow> string" where
  "show_nat n =
     (if n < 10 then [char_of (48 + n)] else show_nat (n div 10) @ [char_of (48 + n mod 10)])"

definition show_int :: "int \<Rightarrow> string" where
  "show_int i = (if i < 0 then CHR ''-'' # show_nat (nat (- i)) else show_nat (nat i))"

fun commas :: "string list \<Rightarrow> string" where
  "commas [] = []"
| "commas [x] = x"
| "commas (x # y # ys) = x @ CHR '','' # commas (y # ys)"

fun ref_stringify :: "json \<Rightarrow> string" where
  "ref_stringify JNull = ''null''"
| "ref_stringify (JBool b) = (if b then ''true'' else ''false'')"
| "ref_stringify (JNum i) = show_int i"
| "ref_stringify (JStr s) = quote s"
| "ref_stringify (JArr xs) = CHR ''['' # commas (map ref_stringify xs) @ '']''"
| "ref_stringify (JObj kvs) =
     CHR ''{'' # commas (map (\<lambda>(k, v). quote k @ CHR '':'' # ref_stringify v) kvs) @ ''}''"

definition is_ws :: "char \<Rightarrow> bool" where
  "is_ws c = (c = CHR '' '' \<or> c = CHR 0x09 \<or> c = CHR 0x0A \<or> c = CHR 0x0D)"

definition is_digit :: "char \<Rightarrow> bool" where
  "is_digit c = (48 \<le> (of_char c :: nat) \<and> (of_char c :: nat) \<le> 57)"

text \<open>
  The characters of a string after its opening quotation mark, up to the closing one. A
  control character that is not escaped ends the reading with an error, as does an
  unknown escape. An escape \<open>\u\<close> with a value of 256 or more has no counterpart among the
  characters of \<open>string\<close> and is refused as well.
\<close>

definition hex_value :: "char \<Rightarrow> nat option" where
  "hex_value c =
     (let n = (of_char c :: nat) in
      if 48 \<le> n \<and> n \<le> 57 then Some (n - 48)
      else if 97 \<le> n \<and> n \<le> 102 then Some (n - 87)
      else if 65 \<le> n \<and> n \<le> 70 then Some (n - 55)
      else None)"

definition unescape :: "char \<Rightarrow> char option" where
  "unescape e =
     (if e = CHR 0x22 \<or> e = CHR 0x5C \<or> e = CHR ''/'' then Some e
      else if e = CHR ''b'' then Some (CHR 0x08)
      else if e = CHR ''t'' then Some (CHR 0x09)
      else if e = CHR ''n'' then Some (CHR 0x0A)
      else if e = CHR ''f'' then Some (CHR 0x0C)
      else if e = CHR ''r'' then Some (CHR 0x0D)
      else None)"

fun prepend :: "char \<Rightarrow> (string \<times> string) option \<Rightarrow> (string \<times> string) option" where
  "prepend c None = None"
| "prepend c (Some (s, r)) = Some (c # s, r)"

fun read_chars :: "string \<Rightarrow> (string \<times> string) option" where
  "read_chars [] = None"
| "read_chars (c # cs) =
     (if c = CHR 0x22 then Some ([], cs)
      else if c = CHR 0x5C then
        (case cs of
           [] \<Rightarrow> None
         | e # cs' \<Rightarrow>
             if e = CHR ''u'' then
               (case cs' of
                  h1 # h2 # h3 # h4 # cs'' \<Rightarrow>
                    (case (hex_value h1, hex_value h2, hex_value h3, hex_value h4) of
                       (Some a, Some b, Some c, Some d) \<Rightarrow>
                         if ((a * 16 + b) * 16 + c) * 16 + d < 256
                         then prepend (char_of (((a * 16 + b) * 16 + c) * 16 + d))
                                (read_chars cs'')
                         else None
                     | _ \<Rightarrow> None)
                | _ \<Rightarrow> None)
             else
               (case unescape e of
                  None \<Rightarrow> None
                | Some x \<Rightarrow> prepend x (read_chars cs')))
      else if (of_char c :: nat) < 32 then None
      else prepend c (read_chars cs))"

fun read_digits :: "nat \<Rightarrow> string \<Rightarrow> nat \<times> string" where
  "read_digits acc [] = (acc, [])"
| "read_digits acc (c # cs) =
     (if is_digit c then read_digits (10 * acc + (of_char c - 48)) cs else (acc, c # cs))"

fun read_value :: "nat \<Rightarrow> string \<Rightarrow> (json \<times> string) option"
  and read_elements :: "nat \<Rightarrow> string \<Rightarrow> (json list \<times> string) option"
  and read_members :: "nat \<Rightarrow> string \<Rightarrow> ((string \<times> json) list \<times> string) option" where
  "read_value 0 s = None"
| "read_value (Suc n) s =
     (case dropWhile is_ws s of
        [] \<Rightarrow> None
      | c # cs \<Rightarrow>
          if c = CHR ''n'' then (if take 3 cs = ''ull'' then Some (JNull, drop 3 cs) else None)
          else if c = CHR ''t'' then
            (if take 3 cs = ''rue'' then Some (JBool True, drop 3 cs) else None)
          else if c = CHR ''f'' then
            (if take 4 cs = ''alse'' then Some (JBool False, drop 4 cs) else None)
          else if c = CHR 0x22 then
            (case read_chars cs of None \<Rightarrow> None | Some (str, r) \<Rightarrow> Some (JStr str, r))
          else if c = CHR ''['' then
            (case dropWhile is_ws cs of
               [] \<Rightarrow> None
             | b # r \<Rightarrow>
                 if b = CHR '']'' then Some (JArr [], r)
                 else (case read_elements n cs of
                         None \<Rightarrow> None | Some (xs, r') \<Rightarrow> Some (JArr xs, r')))
          else if c = CHR ''{'' then
            (case dropWhile is_ws cs of
               [] \<Rightarrow> None
             | b # r \<Rightarrow>
                 if b = CHR ''}'' then Some (JObj [], r)
                 else (case read_members n cs of
                         None \<Rightarrow> None | Some (kvs, r') \<Rightarrow> Some (JObj kvs, r')))
          else if c = CHR ''-'' then
            (case cs of
               [] \<Rightarrow> None
             | d # _ \<Rightarrow>
                 if is_digit d then
                   (case read_digits 0 cs of (k, r) \<Rightarrow> Some (JNum (- int k), r))
                 else None)
          else if is_digit c then
            (case read_digits 0 (c # cs) of (k, r) \<Rightarrow> Some (JNum (int k), r))
          else None)"
| "read_elements 0 s = None"
| "read_elements (Suc n) s =
     (case read_value n s of
        None \<Rightarrow> None
      | Some (x, r) \<Rightarrow>
          (case dropWhile is_ws r of
             [] \<Rightarrow> None
           | c # r' \<Rightarrow>
               if c = CHR '']'' then Some ([x], r')
               else if c = CHR '','' then
                 (case read_elements n r' of
                    None \<Rightarrow> None | Some (xs, r'') \<Rightarrow> Some (x # xs, r''))
               else None))"
| "read_members 0 s = None"
| "read_members (Suc n) s =
     (case dropWhile is_ws s of
        [] \<Rightarrow> None
      | q # cs \<Rightarrow>
          if q \<noteq> CHR 0x22 then None
          else
            (case read_chars cs of
               None \<Rightarrow> None
             | Some (k, r) \<Rightarrow>
                 (case dropWhile is_ws r of
                    [] \<Rightarrow> None
                  | c # r' \<Rightarrow>
                      if c \<noteq> CHR '':'' then None
                      else
                        (case read_value n r' of
                           None \<Rightarrow> None
                         | Some (v, r'') \<Rightarrow>
                             (case dropWhile is_ws r'' of
                                [] \<Rightarrow> None
                              | e # r3 \<Rightarrow>
                                  if e = CHR ''}'' then Some ([(k, v)], r3)
                                  else if e = CHR '','' then
                                    (case read_members n r3 of
                                       None \<Rightarrow> None
                                     | Some (kvs, r4) \<Rightarrow> Some ((k, v) # kvs, r4))
                                  else None)))))"

definition ref_parse :: "string \<Rightarrow> json option" where
  "ref_parse s =
     (case read_value (Suc (length s)) s of
        None \<Rightarrow> None
      | Some (j, r) \<Rightarrow> if dropWhile is_ws r = [] then Some j else None)"

section \<open>Validation\<close>

lemma filter_nonempty_iff: "(filter P xs \<noteq> []) = (\<exists>x \<in> set xs. P x)"
  by (simp add: filter_empty_conv)

lemma handlePrint_cases:
  "handlePrint d =
     (if violated d VisionTooLong then [Alert VisionTooLong]
      else if violated d SloganTooLong then [Alert SloganTooLong]
      else if violated d EngineTooLong then [Alert EngineTooLong]
      else if violated d EpisodeTextTooLong then [Alert EpisodeTextTooLong]
      else if violated d EpisodeFromTooLong then [Alert EpisodeFromTooLong]
      else [WindowPrint])"
  by (simp add: handlePrint_def Let_def filter_nonempty_iff validateTextLength_def not_le)

lemma within_limits_iff: "within_limits d = (\<forall>r. \<not> violated d r)"
proof
  assume "within_limits d"
  then show "\<forall>r. \<not> violated d r"
    unfolding within_limits_def
    by (intro allI, case_tac r) (auto simp: not_less)
next
  assume h: "\<forall>r. \<not> violated d r"
  have "\<not> violated d VisionTooLong" "\<not> violated d SloganTooLong"
    "\<not> violated d EngineTooLong" "\<not> violated d EpisodeTextTooLong"
    "\<not> violated d EpisodeFromTooLong"
    using h by blast+
  then show "within_limits d"
    unfolding within_limits_def by (auto simp: not_less)
qed

lemma all_violation:
  "(\<forall>r. P r) =
     (P VisionTooLong \<and> P SloganTooLong \<and> P EngineTooLong \<and> P EpisodeTextTooLong \<and>
      P EpisodeFromTooLong)"
proof
  assume h: "P VisionTooLong \<and> P SloganTooLong \<and> P EngineTooLong \<and> P EpisodeTextTooLong \<and>
      P EpisodeFromTooLong"
  show "\<forall>r. P r"
  proof
    fix r show "P r" using h by (cases r) simp_all
  qed
qed simp

lemma handlePrint_print_iff: "(handlePrint d = [WindowPrint]) = within_limits d"
  by (simp add: handlePrint_cases within_limits_iff all_violation)

lemma handlePrint_alert_iff:
  "(handlePrint d = [Alert r]) =
     (violated d r \<and> (\<forall>r'. violated d r' \<longrightarrow> precedence r \<le> precedence r'))"
  unfolding handlePrint_cases all_violation
  by (cases r) auto

lemma handlePrint_invalid:
  assumes "\<not> within_limits d"
  shows "\<exists>r. handlePrint d = [Alert r]"
  using assms unfolding within_limits_iff all_violation handlePrint_cases by auto

lemma emptyEpisodes_list:
  "emptyEpisodes =
     [\<lparr>ep_from = [], ep_text = []\<rparr>, \<lparr>ep_from = [], ep_text = []\<rparr>, \<lparr>ep_from = [], ep_text = []\<rparr>,
      \<lparr>ep_from = [], ep_text = []\<rparr>, \<lparr>ep_from = [], ep_text = []\<rparr>, \<lparr>ep_from = [], ep_text = []\<rparr>]"
  by (simp add: emptyEpisodes_def eval_nat_numeral)

lemma within_limits_defaultData: "within_limits defaultData"
  by (simp add: within_limits_def defaultData_def emptyEpisodes_def)

lemma fixed_shape_defaultData: "fixed_shape defaultData"
  by (simp add: fixed_shape_def defaultData_def emptyEpisodes_def)

text \<open>
  Claim C1. Validation answers with the print call when every field is within its limit:
  visions, slogan and engines at most 30, every episode text at most 80, every episode
  from at most 8. Otherwise it answers with one alert, that of a violated rule which no
  other violated rule precedes in the order VisionTooLong, SloganTooLong, EngineTooLong,
  EpisodeTextTooLong, EpisodeFromTooLong, however many rules are violated.
\<close>

theorem validate_first_violated_rule:
  "(within_limits d \<longrightarrow> handlePrint d = [WindowPrint]) \<and>
   (\<not> within_limits d \<longrightarrow>
      (\<exists>r. handlePrint d = [Alert r] \<and> violated d r \<and>
           (\<forall>r'. violated d r' \<longrightarrow> precedence r \<le> precedence r')))"
proof (intro conjI impI)
  assume "within_limits d"
  then show "handlePrint d = [WindowPrint]" by (simp add: handlePrint_print_iff)
next
  assume "\<not> within_limits d"
  then obtain r where r: "handlePrint d = [Alert r]"
    using handlePrint_invalid by blast
  then have "violated d r \<and> (\<forall>r'. violated d r' \<longrightarrow> precedence r \<le> precedence r')"
    by (simp add: handlePrint_alert_iff)
  with r show "\<exists>r. handlePrint d = [Alert r] \<and> violated d r \<and>
           (\<forall>r'. violated d r' \<longrightarrow> precedence r \<le> precedence r')"
    by blast
qed

theorem validate_first_violated_rule_witness:
  "within_limits defaultData \<and> handlePrint defaultData = [WindowPrint] \<and>
   \<not> within_limits
       (defaultData\<lparr>engineSlogan := replicate 31 (CHR ''x''),
          episodes := [\<lparr>ep_from = ''12345678901'', ep_text = []\<rparr>]\<rparr>) \<and>
   handlePrint
       (defaultData\<lparr>engineSlogan := replicate 31 (CHR ''x''),
          episodes := [\<lparr>ep_from = ''12345678901'', ep_text = []\<rparr>]\<rparr>) = [Alert SloganTooLong]"
proof -
  let ?bad = "defaultData\<lparr>engineSlogan := replicate 31 (CHR ''x''),
          episodes := [\<lparr>ep_from = ''12345678901'', ep_text = []\<rparr>]\<rparr>"
  have ok: "within_limits defaultData"
    by (simp add: within_limits_def defaultData_def emptyEpisodes_def)
  have bad: "\<not> within_limits ?bad"
    by (simp add: within_limits_def)
  from validate_first_violated_rule [of ?bad] bad obtain r where
    r: "handlePrint ?bad = [Alert r]" "violated ?bad r"
      "\<forall>r'. violated ?bad r' \<longrightarrow> precedence r \<le> precedence r'"
    by blast
  have "violated ?bad SloganTooLong" by simp
  with r(3) have "precedence r \<le> 2" by fastforce
  moreover have "\<not> violated ?bad VisionTooLong" by (simp add: defaultData_def)
  ultimately have "r = SloganTooLong" using r(2) by (cases r) auto
  with r(1) ok bad validate_first_violated_rule [of defaultData] show ?thesis by simp
qed

section \<open>The print button\<close>

text \<open>
  Claim C2. A click on the print button calls \<open>window.print\<close> if and only if the record is
  within its limits, and then exactly once. On a violation the only call is the alert of
  the first violated rule, and no print call is made. Either way the record and the
  storage are unchanged: nothing remembers that printing was asked for.
\<close>

theorem print_iff_valid:
  "data (clickPrint w) = data w \<and> localStorage (clickPrint w) = localStorage w \<and>
   (within_limits (data w) \<longrightarrow> log (clickPrint w) = log w @ [WindowPrint]) \<and>
   (\<not> within_limits (data w) \<longrightarrow>
      (\<exists>r. violated (data w) r \<and>
           (\<forall>r'. violated (data w) r' \<longrightarrow> precedence r \<le> precedence r') \<and>
           log (clickPrint w) = log w @ [Alert r])) \<and>
   length (filter (\<lambda>c. c = WindowPrint) (handlePrint (data w))) =
     (if within_limits (data w) then 1 else 0)"
proof -
  have 1: "within_limits (data w) \<Longrightarrow> handlePrint (data w) = [WindowPrint]"
    by (simp add: handlePrint_print_iff)
  have 2: "\<exists>r. violated (data w) r \<and>
           (\<forall>r'. violated (data w) r' \<longrightarrow> precedence r \<le> precedence r') \<and>
           handlePrint (data w) = [Alert r]"
    if nv: "\<not> within_limits (data w)"
  proof -
    obtain r where "handlePrint (data w) = [Alert r]"
      using nv handlePrint_invalid by blast
    then show ?thesis using handlePrint_alert_iff by blast
  qed
  have 3: "length (filter (\<lambda>c. c = WindowPrint) (handlePrint (data w))) =
     (if within_limits (data w) then 1 else 0)"
    using 1 2 by (cases "within_limits (data w)") auto
  show ?thesis using 1 2 3 by (auto simp: clickPrint_def)
qed

theorem print_iff_valid_witness:
  "log (clickPrint \<lparr>data = defaultData,
          localStorage = \<lparr>items = [], quota = 5000000, denied = False\<rparr>, log = []\<rparr>) =
     [WindowPrint] \<and>
   log (clickPrint \<lparr>data = defaultData\<lparr>engineSlogan := replicate 31 (CHR ''x'')\<rparr>,
          localStorage = \<lparr>items = [], quota = 5000000, denied = False\<rparr>, log = []\<rparr>) =
     [Alert SloganTooLong]"
proof -
  let ?st = "\<lparr>items = [], quota = 5000000, denied = False\<rparr>"
  let ?w = "\<lparr>data = defaultData, localStorage = ?st, log = []\<rparr>"
  let ?v = "\<lparr>data = defaultData\<lparr>engineSlogan := replicate 31 (CHR ''x'')\<rparr>,
             localStorage = ?st, log = []\<rparr>"
  have ok: "within_limits (data ?w)"
    by (simp add: within_limits_def defaultData_def emptyEpisodes_def)
  have bad: "\<not> within_limits (data ?v)"
    by (simp add: within_limits_def)
  have "length (filter (\<lambda>c. c = WindowPrint) (handlePrint (data ?v))) = 0"
    using print_iff_valid [of ?v] bad by simp
  moreover obtain r where "violated (data ?v) r" "log (clickPrint ?v) = log ?v @ [Alert r]"
    using print_iff_valid [of ?v] bad by blast
  moreover have "\<not> violated (data ?v) VisionTooLong"  "\<not> violated (data ?v) EngineTooLong"
    "\<not> violated (data ?v) EpisodeTextTooLong" "\<not> violated (data ?v) EpisodeFromTooLong"
    by (simp_all add: defaultData_def emptyEpisodes_def)
  ultimately have "log (clickPrint ?v) = [Alert SloganTooLong]"
    by (cases r) auto
  moreover have "log (clickPrint ?w) = [WindowPrint]"
    using print_iff_valid [of ?w] ok by simp
  ultimately show ?thesis by simp
qed

section \<open>Font size of the episode text\<close>

lemma bex_set_update:
  assumes lt: "i < length xs"
  shows "(\<exists>x \<in> set (xs[i := y]). P x) = (P y \<or> (\<exists>j < length xs. j \<noteq> i \<and> P (xs ! j)))"
proof -
  have "(\<exists>x \<in> set (xs[i := y]). P x) = (\<exists>j < length xs. P (xs[i := y] ! j))"
    by (metis in_set_conv_nth length_list_update)
  also have "\<dots> = (\<exists>j < length xs. P (if i = j then y else xs ! j))"
    using lt by (simp add: nth_list_update)
  also have "\<dots> = (P y \<or> (\<exists>j < length xs. j \<noteq> i \<and> P (xs ! j)))"
    using lt by auto
  finally show ?thesis .
qed

lemma ball_set_update:
  assumes lt: "i < length xs"
  shows "(\<forall>x \<in> set (xs[i := y]). P x) = (P y \<and> (\<forall>j < length xs. j \<noteq> i \<longrightarrow> P (xs ! j)))"
  using bex_set_update [OF lt, of y "\<lambda>x. \<not> P x"] by blast

lemma violated_text_update:
  assumes "(80 < length t) = (80 < length t')"
  shows "violated (d\<lparr>episodes := (episodes d)[i := (episodes d ! i)\<lparr>ep_text := t\<rparr>]\<rparr>) r =
         violated (d\<lparr>episodes := (episodes d)[i := (episodes d ! i)\<lparr>ep_text := t'\<rparr>]\<rparr>) r"
proof (cases "i < length (episodes d)")
  case False
  then have "(episodes d)[i := y] = episodes d" for y
    by (intro list_update_beyond) simp
  then show ?thesis by simp
next
  case True
  show ?thesis using True assms by (cases r) (simp_all add: bex_set_update)
qed

text \<open>
  Claim C9. The font size of an episode text is chosen by its length in three bands, up
  to 40, from 41 to 80 and above 80, and the two bands above 40 give the same size. The
  choice does not bear on validity: replacing an episode text by another one leaves the
  answer of the print handler unchanged whenever both texts are on the same side of the
  limit of 80, whatever their font sizes.
\<close>

theorem episode_font_size_tiers:
  "(n \<le> 40 \<longrightarrow> getEpisodeFontSize n = ''9.6px'') \<and>
   (40 < n \<and> n \<le> 80 \<longrightarrow> getEpisodeFontSize n = ''7.5px'') \<and>
   (80 < n \<longrightarrow> getEpisodeFontSize n = ''7.5px'') \<and>
   (40 < m \<and> 40 < n \<longrightarrow> getEpisodeFontSize m = getEpisodeFontSize n) \<and>
   ((80 < length t) = (80 < length t') \<longrightarrow>
      handlePrint (d\<lparr>episodes := (episodes d)[i := (episodes d ! i)\<lparr>ep_text := t\<rparr>]\<rparr>) =
      handlePrint (d\<lparr>episodes := (episodes d)[i := (episodes d ! i)\<lparr>ep_text := t'\<rparr>]\<rparr>))"
proof -
  have "handlePrint (d\<lparr>episodes := (episodes d)[i := (episodes d ! i)\<lparr>ep_text := t\<rparr>]\<rparr>) =
      handlePrint (d\<lparr>episodes := (episodes d)[i := (episodes d ! i)\<lparr>ep_text := t'\<rparr>]\<rparr>)"
    if "(80 < length t) = (80 < length t')"
    unfolding handlePrint_cases using violated_text_update [OF that] by presburger
  then show ?thesis by (simp add: getEpisodeFontSize_def)
qed

theorem episode_font_size_tiers_witness:
  "getEpisodeFontSize 40 = ''9.6px'' \<and> getEpisodeFontSize 41 = ''7.5px'' \<and>
   getEpisodeFontSize 80 = ''7.5px'' \<and> getEpisodeFontSize 81 = ''7.5px'' \<and>
   handlePrint (defaultData\<lparr>episodes :=
       (episodes defaultData)[0 := (episodes defaultData ! 0)\<lparr>ep_text := replicate 40 (CHR ''a'')\<rparr>]\<rparr>) =
   handlePrint (defaultData\<lparr>episodes :=
       (episodes defaultData)[0 := (episodes defaultData ! 0)\<lparr>ep_text := replicate 41 (CHR ''a'')\<rparr>]\<rparr>)"
proof -
  let ?t = "replicate 40 (CHR ''a'')" and ?t' = "replicate 41 (CHR ''a'')"
  note tiers = episode_font_size_tiers [where m = 0 and t = ?t and t' = ?t'
      and d = defaultData and i = 0]
  have "(80 < length ?t) = (80 < length ?t')" by simp
  with tiers [where n = 81] have
    "handlePrint (defaultData\<lparr>episodes :=
       (episodes defaultData)[0 := (episodes defaultData ! 0)\<lparr>ep_text := ?t\<rparr>]\<rparr>) =
     handlePrint (defaultData\<lparr>episodes :=
       (episodes defaultData)[0 := (episodes defaultData ! 0)\<lparr>ep_text := ?t'\<rparr>]\<rparr>)"
    by blast
  moreover have "getEpisodeFontSize 40 = ''9.6px''" using tiers [where n = 40] by simp
  moreover have "getEpisodeFontSize 41 = ''7.5px''" using tiers [where n = 41] by simp
  moreover have "getEpisodeFontSize 80 = ''7.5px''" using tiers [where n = 80] by simp
  moreover have "getEpisodeFontSize 81 = ''7.5px''" using tiers [where n = 81] by simp
  ultimately show ?thesis by blast
qed

section \<open>The handlers as functions of the record\<close>

lemma map_index_update:
  "map (\<lambda>(i, x). if i = index then f x else x) (enumerate 0 xs) =
     (if index < length xs then xs[index := f (xs ! index)] else xs)"
  by (rule nth_equalityI) (auto simp: nth_enumerate_eq)

lemma data_useEffect_save: "data (useEffect_save S w) = data w"
  by (simp add: useEffect_save_def split: prod.splits)

lemma log_useEffect_save:
  "log (useEffect_save S w) = log w @ snd (save S (data w) (localStorage w))"
  by (simp add: useEffect_save_def split: prod.splits)

lemma handleEpisodeChange_Some:
  "handleEpisodeChange S index k v w =
     Some (useEffect_save S (w\<lparr>data := (data w)\<lparr>episodes :=
       (if index < length (episodes (data w))
        then (episodes (data w))[index := assign_key k v (episodes (data w) ! index)]
        else episodes (data w))\<rparr>\<rparr>))"
  unfolding handleEpisodeChange_def setData_def map_index_update by simp

lemma handleVisionChange_Some:
  "index < length (visions (data w)) \<Longrightarrow>
   handleVisionChange S index v w =
     Some (useEffect_save S (w\<lparr>data := (data w)\<lparr>visions := (visions (data w))[index := v]\<rparr>\<rparr>))"
  by (simp add: handleVisionChange_def setData_def array_assign_def)

lemma handleEngineChange_Some:
  "index < length (engines (data w)) \<Longrightarrow>
   handleEngineChange S index v w =
     Some (useEffect_save S (w\<lparr>data := (data w)\<lparr>engines := (engines (data w))[index := v]\<rparr>\<rparr>))"
  by (simp add: handleEngineChange_def setData_def array_assign_def)

lemma sloganOnChange_Some:
  "sloganOnChange S v w = Some (useEffect_save S (w\<lparr>data := (data w)\<lparr>engineSlogan := v\<rparr>\<rparr>))"
  by (simp add: sloganOnChange_def setData_def)

lemma save_calls: "filter is_SetItem (snd (save S d st)) = [SetItem STORAGE_KEY (S (sheet_json d))]"
  by (simp add: save_def Let_def split: sum.splits)

lemma data_handleVisionChange:
  assumes "i < length (visions (data w))"
  shows "\<exists>w'. handleVisionChange S i v w = Some w' \<and>
           data w' = (data w)\<lparr>visions := (visions (data w))[i := v]\<rparr> \<and>
           log w' = log w @ snd (save S (data w') (localStorage w))"
  unfolding handleVisionChange_Some [OF assms]
  by (simp add: data_useEffect_save log_useEffect_save)

lemma data_handleEngineChange:
  assumes "i < length (engines (data w))"
  shows "\<exists>w'. handleEngineChange S i v w = Some w' \<and>
           data w' = (data w)\<lparr>engines := (engines (data w))[i := v]\<rparr> \<and>
           log w' = log w @ snd (save S (data w') (localStorage w))"
  unfolding handleEngineChange_Some [OF assms]
  by (simp add: data_useEffect_save log_useEffect_save)

lemma data_sloganOnChange:
  "\<exists>w'. sloganOnChange S v w = Some w' \<and>
           data w' = (data w)\<lparr>engineSlogan := v\<rparr> \<and>
           log w' = log w @ snd (save S (data w') (localStorage w))"
  unfolding sloganOnChange_Some
  by (simp add: data_useEffect_save log_useEffect_save)

lemma data_handleEpisodeChange:
  assumes "i < length (episodes (data w))"
  shows "\<exists>w'. handleEpisodeChange S i k v w = Some w' \<and>
           data w' = (data w)\<lparr>episodes :=
             (episodes (data w))[i := assign_key k v (episodes (data w) ! i)]\<rparr> \<and>
           log w' = log w @ snd (save S (data w') (localStorage w))"
  unfolding handleEpisodeChange_Some
  using assms by (simp add: data_useEffect_save log_useEffect_save)

lemma assign_key_current:
  "assign_key From (ep_from ep) ep = ep" "assign_key Text (ep_text ep) ep = ep"
  by simp_all

text \<open>
  Claim C5. On a record with 3 visions, 3 engines and 6 episodes, a vision change or an
  engine change at an index below 3 and an episode change at an index below 6 return a
  state, and its record again has 3 visions, 3 engines and 6 episodes. The element at the
  index is replaced in place: the new string stands at the index, or the named field of
  the episode at the index holds the new value while its other field is kept, and every
  other element of the sequence is the one that was there.
\<close>

theorem mutators_keep_lengths:
  assumes "fixed_shape (data w)"
  shows "(i < 3 \<longrightarrow>
            (\<exists>w'. handleVisionChange S i v w = Some w' \<and> fixed_shape (data w') \<and>
               visions (data w') ! i = v \<and>
               (\<forall>j < 3. j \<noteq> i \<longrightarrow> visions (data w') ! j = visions (data w) ! j))) \<and>
         (i < 3 \<longrightarrow>
            (\<exists>w'. handleEngineChange S i v w = Some w' \<and> fixed_shape (data w') \<and>
               engines (data w') ! i = v \<and>
               (\<forall>j < 3. j \<noteq> i \<longrightarrow> engines (data w') ! j = engines (data w) ! j))) \<and>
         (i < 6 \<longrightarrow>
            (\<exists>w'. handleEpisodeChange S i From v w = Some w' \<and> fixed_shape (data w') \<and>
               ep_from (episodes (data w') ! i) = v \<and>
               ep_text (episodes (data w') ! i) = ep_text (episodes (data w) ! i) \<and>
               (\<forall>j < 6. j \<noteq> i \<longrightarrow> episodes (data w') ! j = episodes (data w) ! j))) \<and>
         (i < 6 \<longrightarrow>
            (\<exists>w'. handleEpisodeChange S i Text v w = Some w' \<and> fixed_shape (data w') \<and>
               ep_text (episodes (data w') ! i) = v \<and>
               ep_from (episodes (data w') ! i) = ep_from (episodes (data w) ! i) \<and>
               (\<forall>j < 6. j \<noteq> i \<longrightarrow> episodes (data w') ! j = episodes (data w) ! j)))"
proof (intro conjI impI)
  assume "i < 3"
  then have lt: "i < length (visions (data w))" using assms by (simp add: fixed_shape_def)
  from data_handleVisionChange [OF lt, of S v] assms lt
  show "\<exists>w'. handleVisionChange S i v w = Some w' \<and> fixed_shape (data w') \<and>
               visions (data w') ! i = v \<and>
               (\<forall>j < 3. j \<noteq> i \<longrightarrow> visions (data w') ! j = visions (data w) ! j)"
    by (auto simp: fixed_shape_def)
next
  assume "i < 3"
  then have lt: "i < length (engines (data w))" using assms by (simp add: fixed_shape_def)
  from data_handleEngineChange [OF lt, of S v] assms lt
  show "\<exists>w'. handleEngineChange S i v w = Some w' \<and> fixed_shape (data w') \<and>
               engines (data w') ! i = v \<and>
               (\<forall>j < 3. j \<noteq> i \<longrightarrow> engines (data w') ! j = engines (data w) ! j)"
    by (auto simp: fixed_shape_def)
next
  assume "i < 6"
  then have lt: "i < length (episodes (data w))" using assms by (simp add: fixed_shape_def)
  from data_handleEpisodeChange [OF lt, of S From v] assms lt
  show "\<exists>w'. handleEpisodeChange S i From v w = Some w' \<and> fixed_shape (data w') \<and>
               ep_from (episodes (data w') ! i) = v \<and>
               ep_text (episodes (data w') ! i) = ep_text (episodes (data w) ! i) \<and>
               (\<forall>j < 6. j \<noteq> i \<longrightarrow> episodes (data w') ! j = episodes (data w) ! j)"
    by (auto simp: fixed_shape_def)
next
  assume "i < 6"
  then have lt: "i < length (episodes (data w))" using assms by (simp add: fixed_shape_def)
  from data_handleEpisodeChange [OF lt, of S Text v] assms lt
  show "\<exists>w'. handleEpisodeChange S i Text v w = Some w' \<and> fixed_shape (data w') \<and>
               ep_text (episodes (data w') ! i) = v \<and>
               ep_from (episodes (data w') ! i) = ep_from (episodes (data w) ! i) \<and>
               (\<forall>j < 6. j \<noteq> i \<longrightarrow> episodes (data w') ! j = episodes (data w) ! j)"
    by (auto simp: fixed_shape_def)
qed

theorem mutators_keep_lengths_witness:
  "fixed_shape defaultData \<and>
   (\<exists>w'. handleVisionChange ref_stringify 2 ''abc''
           \<lparr>data = defaultData,
            localStorage = \<lparr>items = [], quota = 5000000, denied = False\<rparr>, log = []\<rparr> =
         Some w' \<and> fixed_shape (data w') \<and> visions (data w') ! 2 = ''abc'') \<and>
   (\<exists>w'. handleEngineChange ref_stringify 0 ''abc''
           \<lparr>data = defaultData,
            localStorage = \<lparr>items = [], quota = 5000000, denied = False\<rparr>, log = []\<rparr> =
         Some w' \<and> fixed_shape (data w') \<and> engines (data w') ! 0 = ''abc'') \<and>
   (\<exists>w'. handleEpisodeChange ref_stringify 5 Text ''abc''
           \<lparr>data = defaultData,
            localStorage = \<lparr>items = [], quota = 5000000, denied = False\<rparr>, log = []\<rparr> =
         Some w' \<and> fixed_shape (data w') \<and> ep_text (episodes (data w') ! 5) = ''abc'' \<and>
         ep_from (episodes (data w') ! 5) = [] \<and>
         episodes (data w') ! 4 = \<lparr>ep_from = [], ep_text = []\<rparr>) \<and>
   (\<exists>w'. handleEpisodeChange ref_stringify 0 From ''2019''
           \<lparr>data = defaultData,
            localStorage = \<lparr>items = [], quota = 5000000, denied = False\<rparr>, log = []\<rparr> =
         Some w' \<and> fixed_shape (data w') \<and> ep_from (episodes (data w') ! 0) = ''2019'')"
proof -
  let ?w = "\<lparr>data = defaultData,
            localStorage = \<lparr>items = [], quota = 5000000, denied = False\<rparr>, log = []\<rparr>"
  have fs: "fixed_shape (data ?w)" by (simp add: fixed_shape_defaultData)
  have 1: "\<exists>w'. handleVisionChange ref_stringify 2 ''abc'' ?w = Some w' \<and>
      fixed_shape (data w') \<and> visions (data w') ! 2 = ''abc''"
    using mutators_keep_lengths [OF fs, of 2 ref_stringify "''abc''"] by auto
  have 2: "\<exists>w'. handleEngineChange ref_stringify 0 ''abc'' ?w = Some w' \<and>
      fixed_shape (data w') \<and> engines (data w') ! 0 = ''abc''"
    using mutators_keep_lengths [OF fs, of 0 ref_stringify "''abc''"] by auto
  have 3: "\<exists>w'. handleEpisodeChange ref_stringify 5 Text ''abc'' ?w = Some w' \<and>
      fixed_shape (data w') \<and> ep_text (episodes (data w') ! 5) = ''abc'' \<and>
      ep_from (episodes (data w') ! 5) = [] \<and>
      episodes (data w') ! 4 = \<lparr>ep_from = [], ep_text = []\<rparr>"
  proof -
    from mutators_keep_lengths [OF fs, of 5 ref_stringify "''abc''"] obtain w' where
      "handleEpisodeChange ref_stringify 5 Text ''abc'' ?w = Some w'" "fixed_shape (data w')"
      "ep_text (episodes (data w') ! 5) = ''abc''"
      "ep_from (episodes (data w') ! 5) = ep_from (episodes (data ?w) ! 5)"
      "\<forall>j < 6. j \<noteq> 5 \<longrightarrow> episodes (data w') ! j = episodes (data ?w) ! j"
      by auto
    then show ?thesis
      by (intro exI [of _ w']) (simp add: defaultData_def emptyEpisodes_list)
  qed
  have 4: "\<exists>w'. handleEpisodeChange ref_stringify 0 From ''2019'' ?w = Some w' \<and>
      fixed_shape (data w') \<and> ep_from (episodes (data w') ! 0) = ''2019''"
    using mutators_keep_lengths [OF fs, of 0 ref_stringify "''2019''"] by auto
  show ?thesis using 1 2 3 4 fixed_shape_defaultData by simp
qed

text \<open>
  Claim C6. For an index inside the sequence, a vision change and an engine change alter
  only the string at that index of their sequence, and an episode change for the key
  \<open>from\<close> or \<open>text\<close> alters only that field of the episode at that index. Every other
  element, the other field of the episode, and all other fields of the record are as
  before.
\<close>

theorem mutators_frame:
  "(i < length (visions (data w)) \<longrightarrow>
      (\<exists>w'. handleVisionChange S i v w = Some w' \<and>
         length (visions (data w')) = length (visions (data w)) \<and>
         visions (data w') ! i = v \<and>
         (\<forall>j < length (visions (data w)). j \<noteq> i \<longrightarrow> visions (data w') ! j = visions (data w) ! j) \<and>
         engineSlogan (data w') = engineSlogan (data w) \<and> engines (data w') = engines (data w) \<and>
         episodes (data w') = episodes (data w))) \<and>
   (i < length (engines (data w)) \<longrightarrow>
      (\<exists>w'. handleEngineChange S i v w = Some w' \<and>
         length (engines (data w')) = length (engines (data w)) \<and>
         engines (data w') ! i = v \<and>
         (\<forall>j < length (engines (data w)). j \<noteq> i \<longrightarrow> engines (data w') ! j = engines (data w) ! j) \<and>
         visions (data w') = visions (data w) \<and> engineSlogan (data w') = engineSlogan (data w) \<and>
         episodes (data w') = episodes (data w))) \<and>
   (i < length (episodes (data w)) \<longrightarrow>
      (\<exists>w'. handleEpisodeChange S i From v w = Some w' \<and>
         length (episodes (data w')) = length (episodes (data w)) \<and>
         ep_from (episodes (data w') ! i) = v \<and>
         ep_text (episodes (data w') ! i) = ep_text (episodes (data w) ! i) \<and>
         (\<forall>j < length (episodes (data w)). j \<noteq> i \<longrightarrow> episodes (data w') ! j = episodes (data w) ! j) \<and>
         visions (data w') = visions (data w) \<and> engineSlogan (data w') = engineSlogan (data w) \<and>
         engines (data w') = engines (data w))) \<and>
   (i < length (episodes (data w)) \<longrightarrow>
      (\<exists>w'. handleEpisodeChange S i Text v w = Some w' \<and>
         length (episodes (data w')) = length (episodes (data w)) \<and>
         ep_text (episodes (data w') ! i) = v \<and>
         ep_from (episodes (data w') ! i) = ep_from (episodes (data w) ! i) \<and>
         (\<forall>j < length (episodes (data w)). j \<noteq> i \<longrightarrow> episodes (data w') ! j = episodes (data w) ! j) \<and>
         visions (data w') = visions (data w) \<and> engineSlogan (data w') = engineSlogan (data w) \<and>
         engines (data w') = engines (data w)))"
proof (intro conjI impI)
  assume lt: "i < length (visions (data w))"
  from data_handleVisionChange [OF lt, of S v] lt
  show "\<exists>w'. handleVisionChange S i v w = Some w' \<and>
         length (visions (data w')) = length (visions (data w)) \<and>
         visions (data w') ! i = v \<and>
         (\<forall>j < length (visions (data w)). j \<noteq> i \<longrightarrow> visions (data w') ! j = visions (data w) ! j) \<and>
         engineSlogan (data w') = engineSlogan (data w) \<and> engines (data w') = engines (data w) \<and>
         episodes (data w') = episodes (data w)"
    by auto
next
  assume lt: "i < length (engines (data w))"
  from data_handleEngineChange [OF lt, of S v] lt
  show "\<exists>w'. handleEngineChange S i v w = Some w' \<and>
         length (engines (data w')) = length (engines (data w)) \<and>
         engines (data w') ! i = v \<and>
         (\<forall>j < length (engines (data w)). j \<noteq> i \<longrightarrow> engines (data w') ! j = engines (data w) ! j) \<and>
         visions (data w') = visions (data w) \<and> engineSlogan (data w') = engineSlogan (data w) \<and>
         episodes (data w') = episodes (data w)"
    by auto
next
  assume lt: "i < length (episodes (data w))"
  from data_handleEpisodeChange [OF lt, of S From v] lt
  show "\<exists>w'. handleEpisodeChange S i From v w = Some w' \<and>
         length (episodes (data w')) = length (episodes (data w)) \<and>
         ep_from (episodes (data w') ! i) = v \<and>
         ep_text (episodes (data w') ! i) = ep_text (episodes (data w) ! i) \<and>
         (\<forall>j < length (episodes (data w)). j \<noteq> i \<longrightarrow> episodes (data w') ! j = episodes (data w) ! j) \<and>
         visions (data w') = visions (data w) \<and> engineSlogan (data w') = engineSlogan (data w) \<and>
         engines (data w') = engines (data w)"
    by auto
next
  assume lt: "i < length (episodes (data w))"
  from data_handleEpisodeChange [OF lt, of S Text v] lt
  show "\<exists>w'. handleEpisodeChange S i Text v w = Some w' \<and>
         length (episodes (data w')) = length (episodes (data w)) \<and>
         ep_text (episodes (data w') ! i) = v \<and>
         ep_from (episodes (data w') ! i) = ep_from (episodes (data w) ! i) \<and>
         (\<forall>j < length (episodes (data w)). j \<noteq> i \<longrightarrow> episodes (data w') ! j = episodes (data w) ! j) \<and>
         visions (data w') = visions (data w) \<and> engineSlogan (data w') = engineSlogan (data w) \<and>
         engines (data w') = engines (data w)"
    by auto
qed

theorem mutators_frame_witness:
  "\<exists>w'. handleEpisodeChange ref_stringify 2 From ''2019''
           \<lparr>data = defaultData,
            localStorage = \<lparr>items = [], quota = 5000000, denied = False\<rparr>, log = []\<rparr> =
         Some w' \<and>
       episodes (data w') =
         [\<lparr>ep_from = [], ep_text = []\<rparr>, \<lparr>ep_from = [], ep_text = []\<rparr>,
          \<lparr>ep_from = ''2019'', ep_text = []\<rparr>, \<lparr>ep_from = [], ep_text = []\<rparr>,
          \<lparr>ep_from = [], ep_text = []\<rparr>, \<lparr>ep_from = [], ep_text = []\<rparr>] \<and>
       visions (data w') = [[], [], []] \<and> engineSlogan (data w') = [] \<and>
       engines (data w') = [[], [], []]"
proof -
  let ?w = "\<lparr>data = defaultData,
            localStorage = \<lparr>items = [], quota = 5000000, denied = False\<rparr>, log = []\<rparr>"
  have lt: "2 < length (episodes (data ?w))"
    by (simp add: defaultData_def emptyEpisodes_def)
  from mutators_frame [of 2 ?w ref_stringify "''2019''"] lt obtain w' where
    w': "handleEpisodeChange ref_stringify 2 From ''2019'' ?w = Some w'"
      "length (episodes (data w')) = length (episodes (data ?w))"
      "ep_from (episodes (data w') ! 2) = ''2019''"
      "ep_text (episodes (data w') ! 2) = ep_text (episodes (data ?w) ! 2)"
      "\<forall>j < length (episodes (data ?w)). j \<noteq> 2 \<longrightarrow>
          episodes (data w') ! j = episodes (data ?w) ! j"
      "visions (data w') = visions (data ?w)" "engineSlogan (data w') = engineSlogan (data ?w)"
      "engines (data w') = engines (data ?w)"
    by blast
  have "episodes (data w') =
         [\<lparr>ep_from = [], ep_text = []\<rparr>, \<lparr>ep_from = [], ep_text = []\<rparr>,
          \<lparr>ep_from = ''2019'', ep_text = []\<rparr>, \<lparr>ep_from = [], ep_text = []\<rparr>,
          \<lparr>ep_from = [], ep_text = []\<rparr>, \<lparr>ep_from = [], ep_text = []\<rparr>]"
  proof (rule nth_equalityI)
    show "length (episodes (data w')) = length [\<lparr>ep_from = [], ep_text = []\<rparr>, \<lparr>ep_from = [], ep_text = []\<rparr>,
          \<lparr>ep_from = ''2019'', ep_text = []\<rparr>, \<lparr>ep_from = [], ep_text = []\<rparr>,
          \<lparr>ep_from = [], ep_text = []\<rparr>, \<lparr>ep_from = [], ep_text = []\<rparr>]"
      using w'(2) by (simp add: defaultData_def emptyEpisodes_def)
  next
    fix j assume "j < length (episodes (data w'))"
    then have j: "j < 6" using w'(2) by (simp add: defaultData_def emptyEpisodes_def)
    then consider "j = 0" | "j = 1" | "j = 2" | "j = 3" | "j = 4" | "j = 5" by linarith
    then show "episodes (data w') ! j = [\<lparr>ep_from = [], ep_text = []\<rparr>, \<lparr>ep_from = [], ep_text = []\<rparr>,
          \<lparr>ep_from = ''2019'', ep_text = []\<rparr>, \<lparr>ep_from = [], ep_text = []\<rparr>,
          \<lparr>ep_from = [], ep_text = []\<rparr>, \<lparr>ep_from = [], ep_text = []\<rparr>] ! j"
      using w'(3,4,5) by cases (simp_all add: defaultData_def emptyEpisodes_list)
  qed
  with w'(1,6,7,8) show ?thesis by (simp add: defaultData_def)
qed

text \<open>
  Claim C7. A mutator called with the current value of its field (a vision, an engine,
  the slogan, the from or the text of an episode) leaves a record equal to the one
  before, and the calls it adds to the log contain exactly one \<open>setItem\<close>, that of the
  serialised record under the storage key.
\<close>

theorem mutators_idempotent:
  "(i < length (visions (data w)) \<longrightarrow>
      (\<exists>w' calls. handleVisionChange S i (visions (data w) ! i) w = Some w' \<and>
         data w' = data w \<and> log w' = log w @ calls \<and>
         filter is_SetItem calls = [SetItem STORAGE_KEY (S (sheet_json (data w)))])) \<and>
   (i < length (engines (data w)) \<longrightarrow>
      (\<exists>w' calls. handleEngineChange S i (engines (data w) ! i) w = Some w' \<and>
         data w' = data w \<and> log w' = log w @ calls \<and>
         filter is_SetItem calls = [SetItem STORAGE_KEY (S (sheet_json (data w)))])) \<and>
   (\<exists>w' calls. sloganOnChange S (engineSlogan (data w)) w = Some w' \<and>
         data w' = data w \<and> log w' = log w @ calls \<and>
         filter is_SetItem calls = [SetItem STORAGE_KEY (S (sheet_json (data w)))]) \<and>
   (i < length (episodes (data w)) \<longrightarrow>
      (\<exists>w' calls. handleEpisodeChange S i From (ep_from (episodes (data w) ! i)) w = Some w' \<and>
         data w' = data w \<and> log w' = log w @ calls \<and>
         filter is_SetItem calls = [SetItem STORAGE_KEY (S (sheet_json (data w)))])) \<and>
   (i < length (episodes (data w)) \<longrightarrow>
      (\<exists>w' calls. handleEpisodeChange S i Text (ep_text (episodes (data w) ! i)) w = Some w' \<and>
         data w' = data w \<and> log w' = log w @ calls \<and>
         filter is_SetItem calls = [SetItem STORAGE_KEY (S (sheet_json (data w)))]))"
proof (intro conjI impI)
  assume lt: "i < length (visions (data w))"
  from data_handleVisionChange [OF lt, of S "visions (data w) ! i"] obtain w' where
    w': "handleVisionChange S i (visions (data w) ! i) w = Some w'" "data w' = data w"
      "log w' = log w @ snd (save S (data w') (localStorage w))"
    by auto
  with save_calls [of S "data w" "localStorage w"]
  show "\<exists>w' calls. handleVisionChange S i (visions (data w) ! i) w = Some w' \<and>
         data w' = data w \<and> log w' = log w @ calls \<and>
         filter is_SetItem calls = [SetItem STORAGE_KEY (S (sheet_json (data w)))]"
    by (intro exI [of _ w'] exI [of _ "snd (save S (data w) (localStorage w))"]) simp
next
  assume lt: "i < length (engines (data w))"
  from data_handleEngineChange [OF lt, of S "engines (data w) ! i"] obtain w' where
    w': "handleEngineChange S i (engines (data w) ! i) w = Some w'" "data w' = data w"
      "log w' = log w @ snd (save S (data w') (localStorage w))"
    by auto
  with save_calls [of S "data w" "localStorage w"]
  show "\<exists>w' calls. handleEngineChange S i (engines (data w) ! i) w = Some w' \<and>
         data w' = data w \<and> log w' = log w @ calls \<and>
         filter is_SetItem calls = [SetItem STORAGE_KEY (S (sheet_json (data w)))]"
    by (intro exI [of _ w'] exI [of _ "snd (save S (data w) (localStorage w))"]) simp
next
  from data_sloganOnChange [of S "engineSlogan (data w)" w] obtain w' where
    w': "sloganOnChange S (engineSlogan (data w)) w = Some w'" "data w' = data w"
      "log w' = log w @ snd (save S (data w') (localStorage w))"
    by auto
  with save_calls [of S "data w" "localStorage w"]
  show "\<exists>w' calls. sloganOnChange S (engineSlogan (data w)) w = Some w' \<and>
         data w' = data w \<and> log w' = log w @ calls \<and>
         filter is_SetItem calls = [SetItem STORAGE_KEY (S (sheet_json (data w)))]"
    by (intro exI [of _ w'] exI [of _ "snd (save S (data w) (localStorage w))"]) simp
next
  assume lt: "i < length (episodes (data w))"
  from data_handleEpisodeChange [OF lt, of S From "ep_from (episodes (data w) ! i)"]
  obtain w' where
    w': "handleEpisodeChange S i From (ep_from (episodes (data w) ! i)) w = Some w'"
      "data w' = data w" "log w' = log w @ snd (save S (data w') (localStorage w))"
    by (auto simp: assign_key_current)
  with save_calls [of S "data w" "localStorage w"]
  show "\<exists>w' calls. handleEpisodeChange S i From (ep_from (episodes (data w) ! i)) w = Some w' \<and>
         data w' = data w \<and> log w' = log w @ calls \<and>
         filter is_SetItem calls = [SetItem STORAGE_KEY (S (sheet_json (data w)))]"
    by (intro exI [of _ w'] exI [of _ "snd (save S (data w) (localStorage w))"]) simp
next
  assume lt: "i < length (episodes (data w))"
  from data_handleEpisodeChange [OF lt, of S Text "ep_text (episodes (data w) ! i)"]
  obtain w' where
    w': "handleEpisodeChange S i Text (ep_text (episodes (data w) ! i)) w = Some w'"
      "data w' = data w" "log w' = log w @ snd (save S (data w') (localStorage w))"
    by (auto simp: assign_key_current)
  with save_calls [of S "data w" "localStorage w"]
  show "\<exists>w' calls. handleEpisodeChange S i Text (ep_text (episodes (data w) ! i)) w = Some w' \<and>
         data w' = data w \<and> log w' = log w @ calls \<and>
         filter is_SetItem calls = [SetItem STORAGE_KEY (S (sheet_json (data w)))]"
    by (intro exI [of _ w'] exI [of _ "snd (save S (data w) (localStorage w))"]) simp
qed

theorem mutators_idempotent_witness:
  "\<exists>w' calls. handleVisionChange ref_stringify 1 []
           \<lparr>data = defaultData,
            localStorage = \<lparr>items = [], quota = 5000000, denied = False\<rparr>, log = []\<rparr> =
         Some w' \<and>
       data w' = defaultData \<and> log w' = calls \<and>
       filter is_SetItem calls = [SetItem STORAGE_KEY (ref_stringify (sheet_json defaultData))]"
proof -
  let ?w = "\<lparr>data = defaultData,
            localStorage = \<lparr>items = [], quota = 5000000, denied = False\<rparr>, log = []\<rparr>"
  have lt: "1 < length (visions (data ?w))" and cur: "visions (data ?w) ! 1 = []"
    by (simp_all add: defaultData_def)
  from mutators_idempotent [of 1 ?w ref_stringify] lt
  have "\<exists>w' calls. handleVisionChange ref_stringify 1 (visions (data ?w) ! 1) ?w = Some w' \<and>
         data w' = data ?w \<and> log w' = log ?w @ calls \<and>
         filter is_SetItem calls = [SetItem STORAGE_KEY (ref_stringify (sheet_json (data ?w)))]"
    by blast
  then show ?thesis unfolding cur by simp
qed

section \<open>An episode from that is too long\<close>

lemma filter_update_only:
  assumes "i < length xs" "Q y" "\<forall>j < length xs. j \<noteq> i \<longrightarrow> \<not> Q (xs ! j)"
  shows "filter Q (xs[i := y]) = [y]"
proof -
  have "\<not> Q x" if "x \<in> set (take i xs)" for x
  proof -
    from that obtain k where "k < length (take i xs)" "x = take i xs ! k"
      by (auto simp: in_set_conv_nth)
    then have "k < length xs" "k \<noteq> i" "x = xs ! k" by auto
    then show ?thesis using assms(3) by auto
  qed
  moreover have "\<not> Q x" if "x \<in> set (drop (Suc i) xs)" for x
  proof -
    from that obtain k where "k < length (drop (Suc i) xs)" "x = drop (Suc i) xs ! k"
      by (auto simp: in_set_conv_nth)
    then have "Suc i + k < length xs" "x = xs ! (Suc i + k)" by auto
    then show ?thesis using assms(3) by auto
  qed
  ultimately have "filter Q (take i xs) = []" "filter Q (drop (Suc i) xs) = []"
    by (simp_all add: filter_empty_conv)
  then show ?thesis
    using assms(1,2) by (simp add: upd_conv_take_nth_drop)
qed

text \<open>
  Claim C8, as amended. From a record with an episode at index 2 in which every field
  other than the from of that episode is within its limit, setting the from of episode 2
  to the 11 characters \<open>12345678901\<close> makes the print
  handler answer with the alert EpisodeFromTooLong, and the episodes over the limit that
  the handler collects are exactly the episode at index 2. The alert itself names the
  field group and its limit only.
\<close>

theorem from_too_long_at_index_2:
  assumes ok: "within_limits ((data w)\<lparr>episodes :=
                 (episodes (data w))[2 := (episodes (data w) ! 2)\<lparr>ep_from := []\<rparr>]\<rparr>)"
    and lt: "2 < length (episodes (data w))"
  shows "\<exists>w'. handleEpisodeChange S 2 From ''12345678901'' w = Some w' \<and>
           handlePrint (data w') = [Alert EpisodeFromTooLong] \<and>
           filter (\<lambda>ep. \<not> validateTextLength (ep_from ep) 8) (episodes (data w')) =
             [episodes (data w') ! 2]"
proof -
  let ?eps = "episodes (data w)"
  let ?e = "(?eps ! 2)\<lparr>ep_from := ''12345678901''\<rparr>"
  from data_handleEpisodeChange [OF lt, of S From "''12345678901''"] obtain w' where
    w': "handleEpisodeChange S 2 From ''12345678901'' w = Some w'"
      "data w' = (data w)\<lparr>episodes := ?eps[2 := ?e]\<rparr>"
    by auto
  have tx: "length (ep_text (?eps ! j)) \<le> 80" if "j < length ?eps" for j
    using ok lt that unfolding within_limits_def
    by (cases "j = 2") (auto simp: bex_set_update ball_set_update)
  have frm: "length (ep_from (?eps ! j)) \<le> 8" if "j < length ?eps" "j \<noteq> 2" for j
    using ok lt that unfolding within_limits_def
    by (auto simp: ball_set_update)
  have "\<not> violated (data w') VisionTooLong" "\<not> violated (data w') SloganTooLong"
    "\<not> violated (data w') EngineTooLong"
    using ok w'(2) by (auto simp: within_limits_def)
  moreover have "\<not> violated (data w') EpisodeTextTooLong"
    using w'(2) lt tx by (auto simp: bex_set_update not_less)
  moreover have "violated (data w') EpisodeFromTooLong"
    using w'(2) lt by (simp add: bex_set_update)
  ultimately have "handlePrint (data w') = [Alert EpisodeFromTooLong]"
    by (simp add: handlePrint_cases)
  moreover have "filter (\<lambda>ep. \<not> validateTextLength (ep_from ep) 8) (episodes (data w')) =
             [episodes (data w') ! 2]"
    using w'(2) lt frm by (simp add: filter_update_only validateTextLength_def)
  ultimately show ?thesis using w'(1) by blast
qed

theorem from_too_long_at_index_2_witness:
  "within_limits (defaultData\<lparr>episodes :=
      (episodes defaultData)[2 := (episodes defaultData ! 2)\<lparr>ep_from := []\<rparr>]\<rparr>) \<and>
   2 < length (episodes defaultData) \<and>
   (\<exists>w'. handleEpisodeChange ref_stringify 2 From ''12345678901''
           \<lparr>data = defaultData,
            localStorage = \<lparr>items = [], quota = 5000000, denied = False\<rparr>, log = []\<rparr> =
         Some w' \<and>
       handlePrint (data w') = [Alert EpisodeFromTooLong] \<and>
       filter (\<lambda>ep. \<not> validateTextLength (ep_from ep) 8) (episodes (data w')) =
         [episodes (data w') ! 2])"
proof -
  let ?w = "\<lparr>data = defaultData,
            localStorage = \<lparr>items = [], quota = 5000000, denied = False\<rparr>, log = []\<rparr>"
  have ok: "within_limits ((data ?w)\<lparr>episodes :=
                 (episodes (data ?w))[2 := (episodes (data ?w) ! 2)\<lparr>ep_from := []\<rparr>]\<rparr>)"
    by (simp add: within_limits_def defaultData_def emptyEpisodes_list)
  have lt: "2 < length (episodes (data ?w))" by (simp add: defaultData_def emptyEpisodes_def)
  from from_too_long_at_index_2 [OF ok lt, of ref_stringify] ok lt
  show ?thesis by simp
qed

text \<open>
  The answer does not reference the episode: on the default record, the from that is too
  long gives the same answer at index 2 and at index 4.
\<close>

theorem alert_names_no_index:
  "map_option (handlePrint \<circ> data)
     (handleEpisodeChange ref_stringify 2 From ''12345678901''
        \<lparr>data = defaultData,
         localStorage = \<lparr>items = [], quota = 5000000, denied = False\<rparr>, log = []\<rparr>) =
     Some [Alert EpisodeFromTooLong] \<and>
   map_option (handlePrint \<circ> data)
     (handleEpisodeChange ref_stringify 4 From ''12345678901''
        \<lparr>data = defaultData,
         localStorage = \<lparr>items = [], quota = 5000000, denied = False\<rparr>, log = []\<rparr>) =
     Some [Alert EpisodeFromTooLong]"
  by (simp add: handleEpisodeChange_Some data_useEffect_save defaultData_def
      emptyEpisodes_list handlePrint_def validateTextLength_def)

section \<open>The reference reader inverts the reference writer\<close>



























section \<open>Loading and saving\<close>

lemma isArray_iff: "isArray x = (\<exists>xs. x = Some (JArr xs))"
  by (cases x rule: isArray.cases) simp_all

lemma typeof_string_iff: "typeof_string x = (\<exists>s. x = Some (JStr s))"
  by (cases x rule: typeof_string.cases) simp_all

lemma shape_check_eq: "shape_check p = Inr (has_shape p)"
proof (cases p)
  case (JObj kvs)
  then show ?thesis
    by (auto simp: shape_check_def has_shape_def isArray_iff typeof_string_iff)
qed (simp_all add: shape_check_def has_shape_def)

lemma has_shape_truthy: "has_shape p \<Longrightarrow> truthy p"
  by (auto simp: has_shape_def)

lemma load_try_eq:
  "load_try parse st =
     (if denied st then Inl SecurityError
      else case map_of (items st) STORAGE_KEY of
        None \<Rightarrow> Inr None
      | Some stored \<Rightarrow>
          if stored = [] then Inr None
          else (case parse stored of
                  None \<Rightarrow> Inl SyntaxError
                | Some parsed \<Rightarrow> Inr (if has_shape parsed then Some parsed else None)))"
  by (simp add: load_try_def getItem_def shape_check_eq split: option.splits)

lemma load_absent:
  assumes "map_of (items st) STORAGE_KEY = None \<or>
     (\<exists>s. map_of (items st) STORAGE_KEY = Some s \<and>
        (parse s = None \<or> (\<exists>p. parse s = Some p \<and> \<not> has_shape p)))"
  shows "fst (loadDataFromStorage parse st) = None"
  using assms
  by (auto simp: loadDataFromStorage_def load_try_eq split: option.splits)

lemma those_map_JStr: "those (map (string_of_json \<circ> JStr) xs) = Some xs"
  by (induction xs) simp_all

lemma episode_of_json_inverse: "episode_of_json (episode_json ep) = Some ep"
  by (simp add: episode_json_def)

lemma those_map_episode: "those (map (episode_of_json \<circ> episode_json) xs) = Some xs"
  by (induction xs) (simp_all add: episode_of_json_inverse)

lemma sheet_of_json_inverse: "sheet_of_json (sheet_json d) = Some d"
  by (simp add: sheet_json_def those_map_JStr those_map_episode)


lemma ref_parse_not_json: "ref_parse ''not json'' = None"
  by code_simp

lemma ref_parse_visions_no_array:
  \<open>ref_parse ''{"visions":"x","engineSlogan":"","engines":[],"episodes":[]}'' =
     Some (JObj [(''visions'', JStr ''x''), (''engineSlogan'', JStr []),
       (''engines'', JArr []), (''episodes'', JArr [])])\<close>
  by code_simp

lemma ref_parse_missing_key:
  \<open>ref_parse ''{"visions":[],"engineSlogan":"","engines":[]}'' =
     Some (JObj [(''visions'', JArr []), (''engineSlogan'', JStr []), (''engines'', JArr [])])\<close>
  by code_simp

lemma ref_parse_odd_sheet:
  \<open>ref_parse ''{"visions":[1],"engineSlogan":"","engines":[],"episodes":[null]}'' =
     Some (JObj [(''visions'', JArr [JNum 1]), (''engineSlogan'', JStr []),
       (''engines'', JArr []), (''episodes'', JArr [JNull])])\<close>
  by code_simp



text \<open>
  Claim C3. When the storage key is unset, or the stored text does not parse, or the
  parsed value fails the shape check (\<open>visions\<close>, \<open>engines\<close> and \<open>episodes\<close> arrays,
  \<open>engineSlogan\<close> a string), loading returns nothing; an exception raised inside the
  \<open>try\<close> block is logged and also ends in nothing. The state then starts from the default
  record: 3 empty visions, an empty slogan, 3 empty engines, 6 episodes with empty fields.
\<close>

theorem load_absent_default:
  assumes "map_of (items st) STORAGE_KEY = None \<or>
     (\<exists>s. map_of (items st) STORAGE_KEY = Some s \<and>
        (parse s = None \<or> (\<exists>p. parse s = Some p \<and> \<not> has_shape p)))"
  shows "fst (loadDataFromStorage parse st) = None \<and>
         (load_try parse st = Inl e \<longrightarrow>
            loadDataFromStorage parse st = (None, [ConsoleError e])) \<and>
         initialData parse st = sheet_json defaultData \<and>
         sheet_of_json (initialData parse st) = Some defaultData \<and>
         visions defaultData = [[], [], []] \<and> engineSlogan defaultData = [] \<and>
         engines defaultData = [[], [], []] \<and>
         episodes defaultData = replicate 6 \<lparr>ep_from = [], ep_text = []\<rparr>"
proof -
  have absent: "fst (loadDataFromStorage parse st) = None"
    using assms by (rule load_absent)
  then have "initialData parse st = sheet_json defaultData"
    by (simp add: initialData_def)
  then show ?thesis
    using absent
    by (simp add: sheet_of_json_inverse defaultData_def emptyEpisodes_def
        loadDataFromStorage_def)
qed

theorem load_absent_default_witness:
  \<open>loadDataFromStorage ref_parse \<lparr>items = [], quota = 5000000, denied = False\<rparr> = (None, []) \<and>
   initialData ref_parse \<lparr>items = [], quota = 5000000, denied = False\<rparr> = sheet_json defaultData \<and>
   loadDataFromStorage ref_parse
     \<lparr>items = [(STORAGE_KEY, ''not json'')], quota = 5000000, denied = False\<rparr> =
     (None, [ConsoleError SyntaxError]) \<and>
   initialData ref_parse
     \<lparr>items = [(STORAGE_KEY, ''not json'')], quota = 5000000, denied = False\<rparr> =
     sheet_json defaultData \<and>
   loadDataFromStorage ref_parse
     \<lparr>items = [(STORAGE_KEY, ''{"visions":"x","engineSlogan":"","engines":[],"episodes":[]}'')],
      quota = 5000000, denied = False\<rparr> = (None, []) \<and>
   loadDataFromStorage ref_parse
     \<lparr>items = [(STORAGE_KEY, ''{"visions":[],"engineSlogan":"","engines":[]}'')],
      quota = 5000000, denied = False\<rparr> = (None, [])\<close>
proof -
  let ?unset = "\<lparr>items = [], quota = 5000000, denied = False\<rparr>"
  let ?text = "\<lparr>items = [(STORAGE_KEY, ''not json'')], quota = 5000000, denied = False\<rparr>"
  let ?b1 = \<open>''{"visions":"x","engineSlogan":"","engines":[],"episodes":[]}''\<close>
  let ?b2 = \<open>''{"visions":[],"engineSlogan":"","engines":[]}''\<close>
  let ?noarray = "\<lparr>items = [(STORAGE_KEY, ?b1)], quota = 5000000, denied = False\<rparr>"
  let ?nokey = "\<lparr>items = [(STORAGE_KEY, ?b2)], quota = 5000000, denied = False\<rparr>"
  have 1: "fst (loadDataFromStorage ref_parse ?unset) = None \<and>
           initialData ref_parse ?unset = sheet_json defaultData"
    using load_absent_default [of ?unset ref_parse] by simp
  have 2: "fst (loadDataFromStorage ref_parse ?text) = None \<and>
           (load_try ref_parse ?text = Inl SyntaxError \<longrightarrow>
              loadDataFromStorage ref_parse ?text = (None, [ConsoleError SyntaxError])) \<and>
           initialData ref_parse ?text = sheet_json defaultData"
    using load_absent_default [of ?text ref_parse SyntaxError]
    by (simp add: ref_parse_not_json)
  have 3: "fst (loadDataFromStorage ref_parse ?noarray) = None"
    using load_absent_default [of ?noarray ref_parse]
    by (simp add: ref_parse_visions_no_array has_shape_def)
  have 4: "fst (loadDataFromStorage ref_parse ?nokey) = None"
    using load_absent_default [of ?nokey ref_parse]
    by (simp add: ref_parse_missing_key has_shape_def)
  have t: "load_try ref_parse ?text = Inl SyntaxError"
    by (simp add: load_try_eq ref_parse_not_json STORAGE_KEY_def)
  have l: "snd (loadDataFromStorage ref_parse ?unset) = []"
    "snd (loadDataFromStorage ref_parse ?noarray) = []"
    "snd (loadDataFromStorage ref_parse ?nokey) = []"
    by (simp_all add: loadDataFromStorage_def load_try_eq ref_parse_visions_no_array
        ref_parse_missing_key STORAGE_KEY_def)
  show ?thesis using 1 2 3 4 t l by (simp add: prod_eq_iff)
qed

text \<open>
  Claim C10. The shape check looks at the kinds of the four values only. Whatever the
  lengths of the three arrays and whatever their elements are, a stored text that parses
  to an object with \<open>visions\<close>, \<open>engines\<close> and \<open>episodes\<close> arrays and a string
  \<open>engineSlogan\<close> is returned by the loader as it is and becomes the initial state,
  with the arrays it was stored with.
\<close>

theorem load_returns_any_shape:
  assumes "\<not> denied st" "map_of (items st) STORAGE_KEY = Some s" "s \<noteq> []"
    and "parse s = Some (JObj kvs)"
    and "map_of kvs ''visions'' = Some (JArr vs)"
    and "map_of kvs ''engineSlogan'' = Some (JStr sl)"
    and "map_of kvs ''engines'' = Some (JArr es)"
    and "map_of kvs ''episodes'' = Some (JArr eps)"
  shows "fst (loadDataFromStorage parse st) = Some (JObj kvs) \<and>
         initialData parse st = JObj kvs \<and>
         property (initialData parse st) ''visions'' = Inr (Some (JArr vs)) \<and>
         property (initialData parse st) ''engines'' = Inr (Some (JArr es)) \<and>
         property (initialData parse st) ''episodes'' = Inr (Some (JArr eps))"
  using assms
  by (simp add: initialData_def loadDataFromStorage_def load_try_eq has_shape_def)

theorem load_returns_any_shape_witness:
  \<open>fst (loadDataFromStorage ref_parse
      \<lparr>items = [(STORAGE_KEY, ''{"visions":[1],"engineSlogan":"","engines":[],"episodes":[null]}'')],
       quota = 5000000, denied = False\<rparr>) =
     Some (JObj [(''visions'', JArr [JNum 1]), (''engineSlogan'', JStr []),
       (''engines'', JArr []), (''episodes'', JArr [JNull])]) \<and>
   initialData ref_parse
      \<lparr>items = [(STORAGE_KEY, ''{"visions":[1],"engineSlogan":"","engines":[],"episodes":[null]}'')],
       quota = 5000000, denied = False\<rparr> =
     JObj [(''visions'', JArr [JNum 1]), (''engineSlogan'', JStr []),
       (''engines'', JArr []), (''episodes'', JArr [JNull])] \<and>
   sheet_of_json (JObj [(''visions'', JArr [JNum 1]), (''engineSlogan'', JStr []),
       (''engines'', JArr []), (''episodes'', JArr [JNull])]) = None\<close>
proof -
  let ?b = \<open>''{"visions":[1],"engineSlogan":"","engines":[],"episodes":[null]}''\<close>
  let ?st = "\<lparr>items = [(STORAGE_KEY, ?b)], quota = 5000000, denied = False\<rparr>"
  show ?thesis
    using load_returns_any_shape [of ?st ?b ref_parse
        "[(''visions'', JArr [JNum 1]), (''engineSlogan'', JStr []),
          (''engines'', JArr []), (''episodes'', JArr [JNull])]" "[JNum 1]" "[]" "[]" "[JNull]"]
    by (simp add: ref_parse_odd_sheet)
qed




end
